theory Spec2Isabelle
  imports Complex_Main "HOL-Library.Word"
begin

section \<open>Data model\<close>

text \<open>
  The repository is a facade over an object-storage client. \<^verbatim>\<open>bucket.ts\<close> declares
  \<^verbatim>\<open>type Metadata = Record<string, string>\<close> and hands \<^verbatim>\<open>Partial<M>\<close> to
  \<^verbatim>\<open>putHead\<close>, so at run time a metadata object maps property names to a string or to
  \<^verbatim>\<open>undefined\<close>. A property that is absent is \<open>None\<close>; a property that is present
  with the value \<^verbatim>\<open>undefined\<close> is \<open>Some Undefined\<close>.
\<close>

type_synonym byte = "8 word"

datatype jsval = Undefined | Str string

type_synonym metadata = "string \<rightharpoonup> jsval"

text \<open>
  Modelled from the spec: the source declares no error type; every failure is whatever the
  client's \<^verbatim>\<open>send\<close> rejects with. The three classes are the taxonomy of section 7 of
  the specification.
\<close>

datatype error = NotFound | BackendError string | ValidationError

text \<open>
  A Node \<^verbatim>\<open>Readable\<close> is the sequence of events it emits to its listeners.
\<close>

datatype event = Data "byte list" | Error error | End

type_synonym readable = "event list"

text \<open>
  \<^verbatim>\<open>{ Objects: keys.map((k) => ({ Key: k })) }\<close>: the \<^verbatim>\<open>Delete\<close> field of a bulk
  delete is the list of its object identifiers.
\<close>

datatype object_identifier = ObjectIdentifier string

text \<open>
  A command input is the object literal the facade builds, for example
  \<^verbatim>\<open>{ Bucket: this.name, Key: key, ...input }\<close>: a map from field names to field
  values. The spread of a second object over a first is \<open>++\<close>.
\<close>

datatype field =
    Text string
  | Meta metadata
  | Objects "object_identifier list"
  | Payload readable

type_synonym input = "string \<rightharpoonup> field"

datatype command =
    GetObjectCommand input
  | PutObjectCommand input
  | DeleteObjectCommand input
  | DeleteObjectsCommand input
  | CopyObjectCommand input
  | HeadObjectCommand input
  | ListObjectsCommand input

text \<open>The fields of a command output (the response) that the facade reads.\<close>

record response =
  Body :: "readable option"
  Metadata :: "metadata option"

text \<open>
  \<^verbatim>\<open>client.send(command)\<close> is a parameter of the facade: a function that takes the
  command and the state of the storage service and returns the settled promise (\<open>Inl\<close>
  a rejection, \<open>Inr\<close> the output) with the state afterwards.
\<close>

type_synonym ('a, 's) promise = "'s \<Rightarrow> (error + 'a) \<times> 's"

type_synonym 's send = "command \<Rightarrow> (response, 's) promise"

definition await :: "('a, 's) promise \<Rightarrow> ('a \<Rightarrow> ('b, 's) promise) \<Rightarrow> ('b, 's) promise" where
  "await p k s = (case p s of (Inl e, s') \<Rightarrow> (Inl e, s') | (Inr x, s') \<Rightarrow> k x s')"

definition resolve :: "'a \<Rightarrow> ('a, 's) promise" where
  "resolve x s = (Inr x, s)"

text \<open>
  \<^verbatim>\<open>class AWSS3Bucket\<close>: the bucket name, the client and the optional
  \<^verbatim>\<open>mergeMetadata\<close> of the configuration.
\<close>

record 's AWSS3Bucket =
  name :: string
  client :: "'s send"
  mergeMetadata :: "(metadata \<Rightarrow> metadata \<Rightarrow> metadata) option"

section \<open>Stream and metadata helpers (utils.ts)\<close>

text \<open>
  A JavaScript string that results from decoding is given by its sequence of Unicode
  scalar values.
\<close>

type_synonym js_string = "nat list"

text \<open>
  Modelled from the spec: \<^verbatim>\<open>Buffer.concat(chunks).toString("utf-8")\<close> belongs to the Node
  runtime, not to this repository, and the specification only says that the bytes are
  decoded as UTF-8 text. The decoder below is the byte-wise UTF-8 decoder of the Encoding
  standard: a well-formed sequence yields its scalar value, every ill-formed subsequence
  yields U+FFFD, and a byte that ends an ill-formed subsequence is looked at again as the
  start of the next one.
\<close>

datatype utf8_state = Idle | Need nat nat byte byte

definition utf8_start :: "byte \<Rightarrow> js_string \<times> utf8_state" where
  "utf8_start b =
     (if b \<le> 0x7F then ([unat b], Idle)
      else if 0xC2 \<le> b \<and> b \<le> 0xDF then ([], Need (unat (and b 0x1F)) 1 0x80 0xBF)
      else if 0xE0 \<le> b \<and> b \<le> 0xEF then
        ([], Need (unat (and b 0x0F)) 2 (if b = 0xE0 then 0xA0 else 0x80)
                                        (if b = 0xED then 0x9F else 0xBF))
      else if 0xF0 \<le> b \<and> b \<le> 0xF4 then
        ([], Need (unat (and b 0x07)) 3 (if b = 0xF0 then 0x90 else 0x80)
                                        (if b = 0xF4 then 0x8F else 0xBF))
      else ([0xFFFD], Idle))"

fun utf8_decode :: "utf8_state \<Rightarrow> byte list \<Rightarrow> js_string" where
  "utf8_decode Idle [] = []"
| "utf8_decode (Need cp n lo hi) [] = [0xFFFD]"
| "utf8_decode Idle (b # bs) = (case utf8_start b of (out, st) \<Rightarrow> out @ utf8_decode st bs)"
| "utf8_decode (Need cp n lo hi) (b # bs) =
     (if lo \<le> b \<and> b \<le> hi then
        (if n = 1 then (cp * 64 + unat (and b 0x3F)) # utf8_decode Idle bs
         else utf8_decode (Need (cp * 64 + unat (and b 0x3F)) (n - 1) 0x80 0xBF) bs)
      else 0xFFFD # (case utf8_start b of (out, st) \<Rightarrow> out @ utf8_decode st bs))"

definition toString_utf8 :: "byte list \<Rightarrow> js_string" where
  "toString_utf8 buffer = utf8_decode Idle buffer"

text \<open>
  \<^verbatim>\<open>blobToReadable\<close>. A blob is its bytes and a chunk size is a number of bytes, a
  natural number; \<^verbatim>\<open>blob.slice(start, end)\<close> for offsets that are not negative is
  \<open>take (end - start) (drop start blob)\<close>. The closure variable
  \<^verbatim>\<open>offset\<close> is passed in and returned: \<open>read\<close> gives what one call of the
  \<^verbatim>\<open>read()\<close> callback pushes (\<open>None\<close> for \<^verbatim>\<open>push(null)\<close>) and the offset afterwards.
\<close>

definition slice :: "byte list \<Rightarrow> nat \<Rightarrow> nat \<Rightarrow> byte list" where
  "slice blob start fin = take (fin - start) (drop start blob)"

definition read :: "byte list \<Rightarrow> nat \<Rightarrow> nat \<Rightarrow> byte list option \<times> nat" where
  "read blob chunkSize offset =
     (if offset \<ge> length blob then (None, offset)
      else (let fin = min (offset + chunkSize) (length blob);
                chunk = slice blob offset fin
            in (Some chunk, fin)))"

text \<open>
  The stream calls \<^verbatim>\<open>read()\<close> again after every chunk until \<^verbatim>\<open>null\<close> is pushed. The
  events of the stream are the chunks in the order pushed, then the end. A stream that
  never pushes \<^verbatim>\<open>null\<close> has no such list: the value is \<open>None\<close>.
\<close>

partial_function (option) pull :: "byte list \<Rightarrow> nat \<Rightarrow> nat \<Rightarrow> readable option" where
  "pull blob chunkSize offset =
     (case read blob chunkSize offset of
        (None, _) \<Rightarrow> Some [End]
      | (Some chunk, offset') \<Rightarrow>
          Option.bind (pull blob chunkSize offset') (\<lambda>evs. Some (Data chunk # evs)))"

declare pull.simps [code]

definition blobToReadable :: "byte list \<Rightarrow> nat option \<Rightarrow> readable option" where
  "blobToReadable blob chunkSize =
     pull blob (case chunkSize of None \<Rightarrow> 1024 * 64 | Some c \<Rightarrow> c) 0"

text \<open>
  \<^verbatim>\<open>streamToString\<close>: the \<^verbatim>\<open>data\<close> listener collects the chunks, \<^verbatim>\<open>error\<close> rejects
  and \<^verbatim>\<open>end\<close> resolves with the decoded concatenation. A promise settles once, so the
  first of \<^verbatim>\<open>error\<close> and \<^verbatim>\<open>end\<close> decides; a stream that emits neither leaves the
  promise pending, which is \<open>None\<close>.
\<close>

fun listen :: "byte list list \<Rightarrow> readable \<Rightarrow> (error + js_string) option" where
  "listen chunks [] = None"
| "listen chunks (Data chunk # evs) = listen (chunks @ [chunk]) evs"
| "listen chunks (Error e # evs) = Some (Inl e)"
| "listen chunks (End # evs) = Some (Inr (toString_utf8 (concat chunks)))"

definition streamToString :: "readable \<Rightarrow> (error + js_string) option" where
  "streamToString stream = listen [] stream"

text \<open>
  \<^verbatim>\<open>xserializeMetadata\<close>: an entry whose value is \<^verbatim>\<open>undefined\<close> is skipped, every
  other value is written as its \<^verbatim>\<open>toString()\<close>, which for a string is the string. The
  argument is a metadata object here, so the guard for a missing or non-object argument
  does not apply. No function of \<^verbatim>\<open>bucket.ts\<close> calls it.
\<close>

definition xserializeMetadata :: "metadata \<Rightarrow> metadata" where
  "xserializeMetadata metadata =
     (\<lambda>key. case metadata key of
        None \<Rightarrow> None
      | Some Undefined \<Rightarrow> None
      | Some (Str v) \<Rightarrow> Some (Str v))"

section \<open>The facade (bucket.ts)\<close>

definition getRaw :: "'s AWSS3Bucket \<Rightarrow> string \<Rightarrow> input \<Rightarrow> (response, 's) promise" where
  "getRaw this key inp =
     await (client this (GetObjectCommand
              ([''Bucket'' \<mapsto> Text (name this), ''Key'' \<mapsto> Text key] ++ inp)))
       (\<lambda>s3response. resolve s3response)"

definition get :: "'s AWSS3Bucket \<Rightarrow> string \<Rightarrow> (readable option, 's) promise" where
  "get this key = await (getRaw this key Map.empty) (\<lambda>s3response. resolve (Body s3response))"

text \<open>
  \<^verbatim>\<open>getText\<close> may stay pending with the stream it drains, so its outcome is an option.
\<close>

definition getText :: "'s AWSS3Bucket \<Rightarrow> string \<Rightarrow> 's \<Rightarrow> (error + js_string) option \<times> 's" where
  "getText this key s =
     (case getRaw this key Map.empty s of
        (Inl e, s') \<Rightarrow> (Some (Inl e), s')
      | (Inr s3response, s') \<Rightarrow>
          (case Body s3response of
             None \<Rightarrow> (Some (Inr []), s')
           | Some stream \<Rightarrow> (streamToString stream, s')))"

definition deleteRaw :: "'s AWSS3Bucket \<Rightarrow> string \<Rightarrow> (response, 's) promise" where
  "deleteRaw this key =
     client this (DeleteObjectCommand [''Bucket'' \<mapsto> Text (name this), ''Key'' \<mapsto> Text key])"

definition delete :: "'s AWSS3Bucket \<Rightarrow> string \<Rightarrow> (response, 's) promise" where
  "delete this key = deleteRaw this key"

definition deleteManyRaw :: "'s AWSS3Bucket \<Rightarrow> field \<Rightarrow> input \<Rightarrow> (response, 's) promise" where
  "deleteManyRaw this del inp =
     client this (DeleteObjectsCommand
        ([''Bucket'' \<mapsto> Text (name this), ''Delete'' \<mapsto> del] ++ inp))"

definition deleteMany :: "'s AWSS3Bucket \<Rightarrow> string list \<Rightarrow> (response, 's) promise" where
  "deleteMany this keys = deleteManyRaw this (Objects (map (\<lambda>k. ObjectIdentifier k) keys)) Map.empty"

definition copyRaw :: "'s AWSS3Bucket \<Rightarrow> string \<Rightarrow> string \<Rightarrow> input \<Rightarrow> (response, 's) promise" where
  "copyRaw this oldKey newKey params =
     client this (CopyObjectCommand
        ([''Bucket'' \<mapsto> Text (name this),
          ''CopySource'' \<mapsto> Text (name this @ ''/'' @ oldKey),
          ''Key'' \<mapsto> Text newKey] ++ params))"

definition rename :: "'s AWSS3Bucket \<Rightarrow> string \<Rightarrow> string \<Rightarrow> (unit, 's) promise" where
  "rename this oldKey newKey =
     (if oldKey = newKey then resolve ()
      else await (copyRaw this oldKey newKey Map.empty)
             (\<lambda>_. await (deleteRaw this oldKey) (\<lambda>_. resolve ())))"

definition getHeadRaw :: "'s AWSS3Bucket \<Rightarrow> string \<Rightarrow> input \<Rightarrow> (response, 's) promise" where
  "getHeadRaw this key inp =
     client this (HeadObjectCommand
        ([''Bucket'' \<mapsto> Text (name this), ''Key'' \<mapsto> Text key] ++ inp))"

definition getHead :: "'s AWSS3Bucket \<Rightarrow> string \<Rightarrow> (metadata, 's) promise" where
  "getHead this key =
     await (getHeadRaw this key Map.empty)
       (\<lambda>s3response. resolve (case Metadata s3response of Some m \<Rightarrow> m | None \<Rightarrow> Map.empty))"

definition putHead :: "'s AWSS3Bucket \<Rightarrow> string \<Rightarrow> metadata \<Rightarrow> (unit, 's) promise" where
  "putHead this key metadata =
     await (getHead this key)
       (\<lambda>currentMetadeata.
          let newMetadata =
                (case mergeMetadata this of
                   Some merge \<Rightarrow> merge currentMetadeata metadata
                 | None \<Rightarrow> currentMetadeata ++ metadata)
          in await (copyRaw this key key
                      [''MetadataDirective'' \<mapsto> Text ''REPLACE'',
                       ''Metadata'' \<mapsto> Meta newMetadata])
               (\<lambda>_. resolve ()))"

section \<open>Observing the requests\<close>

text \<open>
  To say which requests an operation issues, and in which order, the client is wrapped so
  that every command handed to \<^verbatim>\<open>send\<close> is appended to a log kept beside the state
  of the service.
\<close>

definition logged :: "'s send \<Rightarrow> (command list \<times> 's) send" where
  "logged sendf cmd = (\<lambda>(sent, s). case sendf cmd s of (r, s') \<Rightarrow> (r, (sent @ [cmd], s')))"

definition traced :: "'s AWSS3Bucket \<Rightarrow> (command list \<times> 's) AWSS3Bucket" where
  "traced this =
     \<lparr>name = name this, client = logged (client this), mergeMetadata = mergeMetadata this\<rparr>"

text \<open>The commands the facade builds when it is given no overrides.\<close>

abbreviation copy_command :: "string \<Rightarrow> string \<Rightarrow> string \<Rightarrow> command" where
  "copy_command b oldKey newKey \<equiv>
     CopyObjectCommand [''Bucket'' \<mapsto> Text b,
                        ''CopySource'' \<mapsto> Text (b @ ''/'' @ oldKey),
                        ''Key'' \<mapsto> Text newKey]"

abbreviation delete_command :: "string \<Rightarrow> string \<Rightarrow> command" where
  "delete_command b key \<equiv> DeleteObjectCommand [''Bucket'' \<mapsto> Text b, ''Key'' \<mapsto> Text key]"

abbreviation head_command :: "string \<Rightarrow> string \<Rightarrow> command" where
  "head_command b key \<equiv> HeadObjectCommand [''Bucket'' \<mapsto> Text b, ''Key'' \<mapsto> Text key]"

abbreviation get_command :: "string \<Rightarrow> string \<Rightarrow> command" where
  "get_command b key \<equiv> GetObjectCommand [''Bucket'' \<mapsto> Text b, ''Key'' \<mapsto> Text key]"

abbreviation replace_command :: "string \<Rightarrow> string \<Rightarrow> metadata \<Rightarrow> command" where
  "replace_command b key m \<equiv>
     CopyObjectCommand [''Bucket'' \<mapsto> Text b,
                        ''CopySource'' \<mapsto> Text (b @ ''/'' @ key),
                        ''Key'' \<mapsto> Text key,
                        ''MetadataDirective'' \<mapsto> Text ''REPLACE'',
                        ''Metadata'' \<mapsto> Meta m]"

abbreviation bulk_delete_command :: "string \<Rightarrow> string list \<Rightarrow> command" where
  "bulk_delete_command b keys \<equiv>
     DeleteObjectsCommand [''Bucket'' \<mapsto> Text b,
                           ''Delete'' \<mapsto> Objects (map ObjectIdentifier keys)]"

section \<open>A storage service to run the facade against\<close>

text \<open>
  Modelled from the spec: the storage backend (the SDK client and the remote service) is
  not code of this repository. The facade takes it as the parameter \<open>client\<close>; where a
  statement speaks of the objects the service holds, it is read on this in-memory service,
  which follows the request/response contract of section 6 of the specification. An object
  is addressed by \<^verbatim>\<open>bucket/key\<close>, the form \<^verbatim>\<open>CopySource\<close> has. A failure is scheduled
  by \<open>faults\<close>: each request consumes the head of the list, and \<open>Some e\<close> there makes
  the request fail with \<open>e\<close> and leave the objects as they are.
\<close>

record s3object =
  payload :: "byte list"
  meta :: metadata

record s3 =
  objects :: "string \<rightharpoonup> s3object"
  faults :: "error option list"

definition text_field :: "input \<Rightarrow> string \<Rightarrow> string option" where
  "text_field i f = (case i f of Some (Text t) \<Rightarrow> Some t | _ \<Rightarrow> None)"

definition ack :: response where
  "ack = \<lparr>Body = None, Metadata = None\<rparr>"

text \<open>Metadata travels as headers: an entry whose value is \<^verbatim>\<open>undefined\<close> is not stored.\<close>

definition stored :: "metadata \<Rightarrow> metadata" where
  "stored m = (\<lambda>k. case m k of Some (Str v) \<Rightarrow> Some (Str v) | _ \<Rightarrow> None)"

definition drained :: "readable \<Rightarrow> byte list" where
  "drained evs = concat (map (\<lambda>ev. case ev of Data c \<Rightarrow> c | _ \<Rightarrow> []) evs)"

definition invalid :: "s3 \<Rightarrow> (error + response) \<times> s3" where
  "invalid s = (Inl (BackendError ''InvalidRequest''), s)"

fun perform :: "command \<Rightarrow> s3 \<Rightarrow> (error + response) \<times> s3" where
  "perform (GetObjectCommand i) s =
     (case (text_field i ''Bucket'', text_field i ''Key'') of
        (Some b, Some k) \<Rightarrow>
          (case objects s (b @ ''/'' @ k) of
             None \<Rightarrow> (Inl NotFound, s)
           | Some ob \<Rightarrow> (Inr \<lparr>Body = Some [Data (payload ob), End], Metadata = Some (meta ob)\<rparr>, s))
      | _ \<Rightarrow> invalid s)"
| "perform (HeadObjectCommand i) s =
     (case (text_field i ''Bucket'', text_field i ''Key'') of
        (Some b, Some k) \<Rightarrow>
          (case objects s (b @ ''/'' @ k) of
             None \<Rightarrow> (Inl NotFound, s)
           | Some ob \<Rightarrow> (Inr \<lparr>Body = None, Metadata = Some (meta ob)\<rparr>, s))
      | _ \<Rightarrow> invalid s)"
| "perform (PutObjectCommand i) s =
     (case (text_field i ''Bucket'', text_field i ''Key'') of
        (Some b, Some k) \<Rightarrow>
          (Inr ack,
           s\<lparr>objects := (objects s)(b @ ''/'' @ k \<mapsto>
              \<lparr>payload = (case i ''Body'' of Some (Payload evs) \<Rightarrow> drained evs | _ \<Rightarrow> []),
               meta = (case i ''Metadata'' of Some (Meta m) \<Rightarrow> stored m | _ \<Rightarrow> Map.empty)\<rparr>)\<rparr>)
      | _ \<Rightarrow> invalid s)"
| "perform (DeleteObjectCommand i) s =
     (case (text_field i ''Bucket'', text_field i ''Key'') of
        (Some b, Some k) \<Rightarrow> (Inr ack, s\<lparr>objects := (objects s)(b @ ''/'' @ k := None)\<rparr>)
      | _ \<Rightarrow> invalid s)"
| "perform (DeleteObjectsCommand i) s =
     (case (text_field i ''Bucket'', i ''Delete'') of
        (Some b, Some (Objects ids)) \<Rightarrow>
          (Inr ack,
           s\<lparr>objects := fold (\<lambda>oid m. case oid of ObjectIdentifier k \<Rightarrow> m(b @ ''/'' @ k := None))
                           ids (objects s)\<rparr>)
      | _ \<Rightarrow> invalid s)"
| "perform (CopyObjectCommand i) s =
     (case (text_field i ''Bucket'', text_field i ''CopySource'', text_field i ''Key'') of
        (Some b, Some src, Some k) \<Rightarrow>
          (case objects s src of
             None \<Rightarrow> (Inl NotFound, s)
           | Some ob \<Rightarrow>
               (Inr ack,
                s\<lparr>objects := (objects s)(b @ ''/'' @ k \<mapsto>
                   (if text_field i ''MetadataDirective'' = Some ''REPLACE''
                    then ob\<lparr>meta := (case i ''Metadata'' of Some (Meta m) \<Rightarrow> stored m
                                      | _ \<Rightarrow> Map.empty)\<rparr>
                    else ob))\<rparr>))
      | _ \<Rightarrow> invalid s)"
| "perform (ListObjectsCommand i) s = (Inr ack, s)"

definition s3_send :: "s3 send" where
  "s3_send cmd s =
     (case faults s of
        [] \<Rightarrow> perform cmd s
      | None # rest \<Rightarrow> perform cmd (s\<lparr>faults := rest\<rparr>)
      | Some e # rest \<Rightarrow> (Inl e, s\<lparr>faults := rest\<rparr>))"

definition s3_bucket :: "string \<Rightarrow> s3 AWSS3Bucket" where
  "s3_bucket b = \<lparr>name = b, client = s3_send, mergeMetadata = None\<rparr>"

text \<open>States and buckets used to run the operations on concrete inputs.\<close>

definition hi_object :: s3object where
  "hi_object = \<lparr>payload = [0x68, 0x69], meta = [''owner'' \<mapsto> Str ''bob'']\<rparr>"

definition empty_service :: s3 where
  "empty_service = \<lparr>objects = Map.empty, faults = []\<rparr>"

definition hi_service :: "error option list \<Rightarrow> s3" where
  "hi_service plan = \<lparr>objects = [''bkt/a.txt'' \<mapsto> hi_object], faults = plan\<rparr>"

definition union_bucket :: "s3 AWSS3Bucket" where
  "union_bucket =
     \<lparr>name = ''bkt'', client = s3_send, mergeMetadata = Some (\<lambda>metadata1 metadata2. metadata1 ++ metadata2)\<rparr>"

text \<open>A client that acknowledges every command with a response that has no field.\<close>

definition ack_bucket :: "unit AWSS3Bucket" where
  "ack_bucket = \<lparr>name = ''bkt'', client = (\<lambda>cmd s. (Inr ack, s)), mergeMetadata = None\<rparr>"

text \<open>The metadata a copy request carries, if it carries one.\<close>

definition written_metadata :: "command \<Rightarrow> metadata option" where
  "written_metadata cmd =
     (case cmd of
        CopyObjectCommand i \<Rightarrow> (case i ''Metadata'' of Some (Meta m) \<Rightarrow> Some m | _ \<Rightarrow> None)
      | _ \<Rightarrow> None)"

text \<open>What the last request of a log writes for a metadata key.\<close>

definition written :: "command list \<Rightarrow> string \<Rightarrow> jsval option" where
  "written sent k =
     (case rev sent of
        [] \<Rightarrow> None
      | cmd # _ \<Rightarrow> (case written_metadata cmd of Some m \<Rightarrow> m k | None \<Rightarrow> None))"

section \<open>Properties of the facade\<close>

subsection \<open>Renaming\<close>

lemma logged_apply:
  "logged sendf cmd (sent, s) = (fst (sendf cmd s), (sent @ [cmd], snd (sendf cmd s)))"
  by (simp add: logged_def split: prod.split)

text \<open>
  C6. For every key \<open>k\<close>, \<^verbatim>\<open>rename(k, k)\<close> is a no-op: it resolves without handing any
  command to the client (the log of requests is as it was, so neither a copy nor a delete
  was issued), and the state of the service is unchanged.
\<close>

theorem rename_same_key_noop:
  "rename (traced this) k k (sent, s) = (Inr (), (sent, s)) \<and> rename this k k s = (Inr (), s)"
  by (simp add: rename_def resolve_def)

text \<open>
  C9. For distinct keys, if the copy request of \<^verbatim>\<open>rename\<close> is rejected, the rejection is
  what the caller gets, the copy is the only request that was issued (no delete follows),
  and the service is in the state the rejected copy left it in.
\<close>

theorem rename_copy_fails_no_delete:
  assumes "oldKey \<noteq> newKey"
    and "client this (copy_command (name this) oldKey newKey) s = (Inl e, s')"
  shows "rename (traced this) oldKey newKey (sent, s) =
           (Inl e, (sent @ [copy_command (name this) oldKey newKey], s'))"
  using assms
  by (simp add: rename_def await_def copyRaw_def traced_def logged_apply)

theorem rename_copy_fails_no_delete_witness:
  "''a.txt'' \<noteq> ''b.txt'' \<and>
   rename (traced (s3_bucket ''bkt'')) ''a.txt'' ''b.txt''
       ([], empty_service) =
     (Inl NotFound,
      ([copy_command ''bkt'' ''a.txt'' ''b.txt''],
       empty_service))"
  using rename_copy_fails_no_delete [of "''a.txt''" "''b.txt''" "s3_bucket ''bkt''"
      empty_service NotFound empty_service "[]"]
  by (simp add: s3_bucket_def s3_send_def text_field_def empty_service_def)

text \<open>
  C3. For distinct keys, \<^verbatim>\<open>rename\<close> hands the client the copy request first; once the
  copy has succeeded it hands it the delete request for the old key, and nothing else: the
  requests issued are exactly the copy, then the delete. The outcome of the delete is the
  outcome the caller sees, so a rejected delete is the caller's error, and the service stays
  in the state the two requests left it in (no request is issued to undo the copy). On the
  in-memory service, with an object at the old key, a copy that succeeds and a delete
  that is rejected with \<open>e\<close>: the caller gets \<open>e\<close>, and afterwards the object is at the
  old key and also at the new key.
\<close>

theorem rename_copy_then_delete:
  assumes "oldKey \<noteq> newKey"
  shows "(\<forall>r s1 d s2.
            client this (copy_command (name this) oldKey newKey) s = (Inr r, s1) \<longrightarrow>
            client this (delete_command (name this) oldKey) s1 = (d, s2) \<longrightarrow>
            rename (traced this) oldKey newKey (sent, s) =
              (map_sum id (\<lambda>_. ()) d,
               (sent @ [copy_command (name this) oldKey newKey,
                       delete_command (name this) oldKey], s2)))
       \<and> (\<forall>ob e rest st.
            objects st (b @ ''/'' @ oldKey) = Some ob \<longrightarrow>
            faults st = None # Some e # rest \<longrightarrow>
            rename (traced (s3_bucket b)) oldKey newKey (sent', st) =
              (Inl e,
               (sent' @ [copy_command b oldKey newKey, delete_command b oldKey],
                st\<lparr>objects := (objects st)(b @ ''/'' @ newKey \<mapsto> ob), faults := rest\<rparr>))
            \<and> ((objects st)(b @ ''/'' @ newKey \<mapsto> ob)) (b @ ''/'' @ oldKey) = Some ob
            \<and> ((objects st)(b @ ''/'' @ newKey \<mapsto> ob)) (b @ ''/'' @ newKey) = Some ob)"
proof (intro conjI allI impI)
  fix r s1 d s2
  assume "client this (copy_command (name this) oldKey newKey) s = (Inr r, s1)"
    and "client this (delete_command (name this) oldKey) s1 = (d, s2)"
  then show "rename (traced this) oldKey newKey (sent, s) =
              (map_sum id (\<lambda>_. ()) d,
               (sent @ [copy_command (name this) oldKey newKey,
                       delete_command (name this) oldKey], s2))"
    using assms
    by (cases d)
       (simp_all add: rename_def await_def resolve_def copyRaw_def deleteRaw_def traced_def
          logged_apply)
next
  fix ob e rest and st :: s3
  assume "objects st (b @ ''/'' @ oldKey) = Some ob" and "faults st = None # Some e # rest"
  then show "rename (traced (s3_bucket b)) oldKey newKey (sent', st) =
              (Inl e,
               (sent' @ [copy_command b oldKey newKey, delete_command b oldKey],
                st\<lparr>objects := (objects st)(b @ ''/'' @ newKey \<mapsto> ob), faults := rest\<rparr>))"
    using assms
    by (simp add: rename_def await_def resolve_def copyRaw_def deleteRaw_def traced_def
          logged_apply s3_bucket_def s3_send_def text_field_def)
qed (use assms in simp_all)

theorem rename_copy_then_delete_witness:
  "''a.txt'' \<noteq> ''b.txt'' \<and>
   fst (client (s3_bucket ''bkt'') (copy_command ''bkt'' ''a.txt'' ''b.txt'')
          (hi_service [None, Some (BackendError ''AccessDenied'')])) = Inr ack \<and>
   fst (client (s3_bucket ''bkt'') (delete_command ''bkt'' ''a.txt'')
          (snd (client (s3_bucket ''bkt'') (copy_command ''bkt'' ''a.txt'' ''b.txt'')
                  (hi_service [None, Some (BackendError ''AccessDenied'')])))) =
     Inl (BackendError ''AccessDenied'') \<and>
   fst (rename (traced (s3_bucket ''bkt'')) ''a.txt'' ''b.txt''
          ([], hi_service [None, Some (BackendError ''AccessDenied'')])) =
     Inl (BackendError ''AccessDenied'') \<and>
   fst (snd (rename (traced (s3_bucket ''bkt'')) ''a.txt'' ''b.txt''
          ([], hi_service [None, Some (BackendError ''AccessDenied'')]))) =
     [copy_command ''bkt'' ''a.txt'' ''b.txt'', delete_command ''bkt'' ''a.txt''] \<and>
   objects (snd (snd (rename (traced (s3_bucket ''bkt'')) ''a.txt'' ''b.txt''
          ([], hi_service [None, Some (BackendError ''AccessDenied'')])))) ''bkt/a.txt'' =
     Some hi_object \<and>
   objects (snd (snd (rename (traced (s3_bucket ''bkt'')) ''a.txt'' ''b.txt''
          ([], hi_service [None, Some (BackendError ''AccessDenied'')])))) ''bkt/b.txt'' =
     Some hi_object"
proof -
  let ?bk = "s3_bucket ''bkt''"
  let ?st = "hi_service [None, Some (BackendError ''AccessDenied'')]"
  let ?s1 = "snd (client ?bk (copy_command (name ?bk) ''a.txt'' ''b.txt'') ?st)"
  let ?s2 = "snd (client ?bk (delete_command (name ?bk) ''a.txt'') ?s1)"
  have ne: "''a.txt'' \<noteq> ''b.txt''" by simp
  have nm: "name ?bk = ''bkt''" by (simp add: s3_bucket_def)
  have copy: "client ?bk (copy_command (name ?bk) ''a.txt'' ''b.txt'') ?st = (Inr ack, ?s1)"
    by (simp add: s3_bucket_def s3_send_def text_field_def hi_service_def)
  have del: "client ?bk (delete_command (name ?bk) ''a.txt'') ?s1
               = (Inl (BackendError ''AccessDenied''), ?s2)"
    by (simp add: s3_bucket_def s3_send_def text_field_def hi_service_def)
  from rename_copy_then_delete [OF ne, THEN conjunct1, rule_format, OF copy del, of "[]"]
  have generic: "rename (traced ?bk) ''a.txt'' ''b.txt'' ([], ?st) =
        (Inl (BackendError ''AccessDenied''),
         ([copy_command ''bkt'' ''a.txt'' ''b.txt'', delete_command ''bkt'' ''a.txt''], ?s2))"
    by (simp add: nm)
  have "objects ?st (''bkt'' @ ''/'' @ ''a.txt'') = Some hi_object"
    and "faults ?st = None # Some (BackendError ''AccessDenied'') # []"
    by (simp_all add: hi_service_def)
  with rename_copy_then_delete [OF ne, THEN conjunct2, of "''bkt''" "[]"]
  have "rename (traced ?bk) ''a.txt'' ''b.txt'' ([], ?st) =
        (Inl (BackendError ''AccessDenied''),
         ([] @ [copy_command ''bkt'' ''a.txt'' ''b.txt'', delete_command ''bkt'' ''a.txt''],
          ?st\<lparr>objects := (objects ?st)(''bkt'' @ ''/'' @ ''b.txt'' \<mapsto> hi_object),
                faults := []\<rparr>))"
    by blast
  moreover from copy [unfolded nm]
  have "fst (client ?bk (copy_command ''bkt'' ''a.txt'' ''b.txt'') ?st) = Inr ack"
    by (metis fst_conv)
  moreover from del [unfolded nm]
  have "fst (client ?bk (delete_command ''bkt'' ''a.txt'')
               (snd (client ?bk (copy_command ''bkt'' ''a.txt'' ''b.txt'') ?st)))
          = Inl (BackendError ''AccessDenied'')"
    by (metis fst_conv)
  moreover note generic
  ultimately show ?thesis
    unfolding hi_service_def by simp
qed

subsection \<open>Reading metadata\<close>

text \<open>
  C8. When the head request for a key succeeds, \<^verbatim>\<open>getHead\<close> resolves with the metadata
  map of the response, and with the empty map when the response carries no metadata. The
  result is a map in both cases; there is no null result.
\<close>

theorem getHead_metadata_or_empty:
  assumes "client this (head_command (name this) key) s = (Inr r, s')"
  shows "(\<forall>m. Metadata r = Some m \<longrightarrow> getHead this key s = (Inr m, s'))
       \<and> (Metadata r = None \<longrightarrow> getHead this key s = (Inr Map.empty, s'))"
  using assms by (simp add: getHead_def getHeadRaw_def await_def resolve_def)

theorem getHead_metadata_or_empty_witness:
  "client (s3_bucket ''bkt'') (head_command (name (s3_bucket ''bkt'')) ''a.txt'') (hi_service [])
     = (Inr \<lparr>Body = None, Metadata = Some (meta hi_object)\<rparr>, hi_service [])
   \<and> getHead (s3_bucket ''bkt'') ''a.txt'' (hi_service []) = (Inr (meta hi_object), hi_service [])
   \<and> meta hi_object ''owner'' = Some (Str ''bob'')
   \<and> client ack_bucket (head_command (name ack_bucket) ''a.txt'') () = (Inr ack, ())
   \<and> Metadata ack = None
   \<and> getHead ack_bucket ''a.txt'' () = (Inr Map.empty, ())"
proof -
  have h: "client (s3_bucket ''bkt'') (head_command (name (s3_bucket ''bkt'')) ''a.txt'')
             (hi_service [])
           = (Inr \<lparr>Body = None, Metadata = Some (meta hi_object)\<rparr>, hi_service [])"
    by (simp add: s3_bucket_def s3_send_def text_field_def hi_service_def)
  from getHead_metadata_or_empty [OF h]
  have 1: "getHead (s3_bucket ''bkt'') ''a.txt'' (hi_service [])
             = (Inr (meta hi_object), hi_service [])"
    by simp
  have k: "client ack_bucket (head_command (name ack_bucket) ''a.txt'') () = (Inr ack, ())"
    by (simp add: ack_bucket_def)
  have n: "Metadata ack = None"
    by (simp add: ack_def)
  from getHead_metadata_or_empty [OF k] n
  have 2: "getHead ack_bucket ''a.txt'' () = (Inr Map.empty, ())"
    by simp
  from h 1 k n 2 show ?thesis by (simp add: hi_object_def)
qed

subsection \<open>Patching metadata\<close>

text \<open>
  C10. If the metadata read that \<^verbatim>\<open>putHead\<close> starts with is rejected, the rejection is
  what the caller gets and the head request is the only request issued: no copy request
  follows, so the facade changes neither the object nor its metadata.
\<close>

theorem putHead_read_fails_no_copy:
  assumes "client this (head_command (name this) key) s = (Inl e, s')"
  shows "putHead (traced this) key metadata (sent, s) =
           (Inl e, (sent @ [head_command (name this) key], s'))"
  using assms
  by (simp add: putHead_def getHead_def getHeadRaw_def await_def traced_def logged_apply)

theorem putHead_read_fails_no_copy_witness:
  "client (s3_bucket ''bkt'') (head_command (name (s3_bucket ''bkt'')) ''missing.txt'') (hi_service [])
     = (Inl NotFound, hi_service [])
   \<and> putHead (traced (s3_bucket ''bkt'')) ''missing.txt'' [''owner'' \<mapsto> Str ''eve'']
        ([], hi_service [])
     = (Inl NotFound, ([head_command ''bkt'' ''missing.txt''], hi_service []))"
proof -
  have h: "client (s3_bucket ''bkt'') (head_command (name (s3_bucket ''bkt'')) ''missing.txt'')
             (hi_service [])
           = (Inl NotFound, hi_service [])"
    by (simp add: s3_bucket_def s3_send_def text_field_def hi_service_def)
  from putHead_read_fails_no_copy [OF h, of "[''owner'' \<mapsto> Str ''eve'']" "[]"] h
  show ?thesis by (simp add: s3_bucket_def)
qed

subsection \<open>Blob to stream\<close>

lemma ceil_div_step: "0 < (C::nat) \<Longrightarrow> (n + C + C - 1) div C = Suc ((n + C - 1) div C)"
proof -
  assume "0 < C"
  then have "n + C + C - 1 = (n + C - 1) + C" by simp
  then show ?thesis using \<open>0 < C\<close> by (simp only: div_add_self2) 
qed

lemma ceil_div_zero: "0 < (C::nat) \<Longrightarrow> (n + C - 1) div C = 0 \<longleftrightarrow> n = 0"
  by (auto simp: div_eq_0_iff)

lemma ceil_div_small: "0 < (n::nat) \<Longrightarrow> n \<le> C \<Longrightarrow> (n + C - 1) div C = 1"
  by (simp add: div_nat_eqI)

lemma ceil_div_real:
  assumes "0 < (C::nat)"
  shows "nat \<lceil>real S / real C\<rceil> = (S + C - 1) div C"
proof -
  define n where "n = (S + C - 1) div C"
  have eq: "n * C + (S + C - 1) mod C = S + C - 1"
    by (simp add: n_def)
  have "(S + C - 1) mod C < C" using assms by simp
  with eq have le: "S \<le> n * C" and lt: "n * C < S + C" using assms by arith+
  have "real S \<le> real (n * C)" using le by (rule of_nat_mono)
  then have up: "real S / real C \<le> of_int (int n)"
    using assms by (simp add: pos_divide_le_eq)
  have "real (n * C) < real (S + C)" using lt by (simp only: of_nat_less_iff)
  then have "(real n - 1) * real C < real S"
    by (simp add: algebra_simps)
  then have "real n - 1 < real S / real C"
    using assms by (simp add: pos_less_divide_eq)
  then have lo: "of_int (int n) - 1 < real S / real C"
    by simp
  from lo up have "\<lceil>real S / real C\<rceil> = int n" by (rule ceiling_unique)
  then show ?thesis by (simp add: n_def)
qed

lemma pull_chunks:
  assumes "0 < C"
  shows "off \<le> length blob \<Longrightarrow> \<exists>chunks. pull blob C off = Some (map Data chunks @ [End]) \<and>
     concat chunks = drop off blob \<and>
     length chunks = (length blob - off + C - 1) div C \<and>
     (\<forall>i < length chunks. length (chunks ! i) =
        (if i + 1 < length chunks then C
         else if (length blob - off) mod C = 0 then C else (length blob - off) mod C))"
proof (induction "length blob - off" arbitrary: off rule: less_induct)
  case less
  show ?case
  proof (cases "off \<ge> length blob")
    case True
    then show ?thesis using assms
      by (subst pull.simps) (simp add: read_def)
  next
    case False
    define fin where "fin = min (off + C) (length blob)"
    define n where "n = length blob - off"
    define n' where "n' = length blob - fin"
    have fin: "off < fin" "fin \<le> length blob" using False assms by (auto simp: fin_def)
    then have "length blob - fin < length blob - off" by arith
    from less(1)[OF this fin(2)] obtain chunks where
      ch: "pull blob C fin = Some (map Data chunks @ [End])"
        "concat chunks = drop fin blob"
        "length chunks = (n' + C - 1) div C"
        "\<forall>i < length chunks. length (chunks ! i) =
        (if i + 1 < length chunks then C
         else if n' mod C = 0 then C else n' mod C)"
      unfolding n'_def by blast
    let ?c = "slice blob off fin"
    have p: "pull blob C off = Some (map Data (?c # chunks) @ [End])"
      using False ch(1) by (subst pull.simps) (simp add: read_def fin_def Let_def)
    have len_c: "length ?c = fin - off" using fin by (simp add: slice_def)
    have "drop off blob = take (fin - off) (drop off blob) @ drop (fin - off) (drop off blob)"
      by (rule append_take_drop_id [symmetric])
    also have "drop (fin - off) (drop off blob) = drop fin blob" using fin by simp
    finally have cc: "concat (?c # chunks) = drop off blob"
      using ch(2) by (simp add: slice_def)
    have rest: "n = C + n' \<and> fin - off = C \<or> 0 < n \<and> n \<le> C \<and> n' = 0 \<and> fin - off = n"
      using False assms unfolding n_def n'_def fin_def by (cases "off + C \<le> length blob") auto
    have n: "length (?c # chunks) = (n + C - 1) div C"
      using rest
    proof
      assume a: "n = C + n' \<and> fin - off = C"
      then have "(n + C - 1) div C = (n' + C + C - 1) div C" by (simp add: add.commute)
      then show ?thesis using ch(3) ceil_div_step [OF assms, of n'] by simp
    next
      assume a: "0 < n \<and> n \<le> C \<and> n' = 0 \<and> fin - off = n"
      then have "(n + C - 1) div C = 1" using ceil_div_small by blast
      moreover have "chunks = []" using a ch(3) ceil_div_zero [OF assms, of n'] by simp
      ultimately show ?thesis by simp
    qed
    have sz: "\<forall>i < length (?c # chunks). length ((?c # chunks) ! i) =
        (if i + 1 < length (?c # chunks) then C
         else if n mod C = 0 then C else n mod C)"
    proof (intro allI impI)
      fix i assume i: "i < length (?c # chunks)"
      show "length ((?c # chunks) ! i) =
        (if i + 1 < length (?c # chunks) then C
         else if n mod C = 0 then C else n mod C)"
        using rest
      proof
        assume a: "n = C + n' \<and> fin - off = C"
        then have m: "n mod C = n' mod C" by simp
        show ?thesis
        proof (cases i)
          case 0
          show ?thesis
          proof (cases "chunks = []")
            case True
            then have "n' = 0" using ch(3) ceil_div_zero [OF assms, of n'] by simp
            then show ?thesis using 0 True len_c a by simp
          next
            case False
            then show ?thesis using 0 len_c a by simp
          qed
        next
          case (Suc j)
          then show ?thesis using ch(4) i m by simp
        qed
      next
        assume a: "0 < n \<and> n \<le> C \<and> n' = 0 \<and> fin - off = n"
        then have "chunks = []" using ch(3) ceil_div_zero [OF assms, of n'] by simp
        moreover have "(if n mod C = 0 then C else n mod C) = n" using a
          by (cases "n = C") auto
        ultimately show ?thesis using i len_c a by simp
      qed
    qed
    show ?thesis using p cc n sz unfolding n_def by blast
  qed
qed

text \<open>
  C4. For a blob of \<open>S\<close> bytes and a chunk size \<open>C > 0\<close>, the stream made from the blob
  ends: it emits the chunks and then the end of the stream. There are \<open>\<lceil>S / C\<rceil>\<close>
  chunks; every chunk but the last has \<open>C\<close> bytes and the last has \<open>S mod C\<close> bytes, or
  \<open>C\<close> when \<open>C\<close> divides \<open>S\<close>; the chunks put together are the blob, so \<open>S\<close> bytes
  are emitted in all. Without a chunk size the stream is the one for 64 KiB.
\<close>

theorem blobToReadable_chunks:
  assumes "0 < C"
  shows "(\<exists>chunks.
            blobToReadable blob (Some C) = Some (map Data chunks @ [End]) \<and>
            length chunks = nat \<lceil>real (length blob) / real C\<rceil> \<and>
            (\<forall>i < length chunks. length (chunks ! i) =
               (if i + 1 < length chunks then C
                else if length blob mod C = 0 then C else length blob mod C)) \<and>
            concat chunks = blob \<and>
            sum_list (map length chunks) = length blob)
       \<and> blobToReadable blob None = blobToReadable blob (Some (64 * 1024))"
proof -
  from pull_chunks [OF assms, of 0 blob] obtain chunks where
    ch: "pull blob C 0 = Some (map Data chunks @ [End])"
        "concat chunks = blob"
        "length chunks = (length blob + C - 1) div C"
        "\<forall>i < length chunks. length (chunks ! i) =
           (if i + 1 < length chunks then C
            else if length blob mod C = 0 then C else length blob mod C)"
    by auto
  have "sum_list (map length chunks) = length (concat chunks)"
    by (simp add: length_concat)
  moreover have "length chunks = nat \<lceil>real (length blob) / real C\<rceil>"
    using ch(3) ceil_div_real [OF assms, of "length blob"] by simp
  ultimately show ?thesis using ch(1,2,4) by (auto simp: blobToReadable_def)
qed

theorem blobToReadable_chunks_witness:
  "0 < (2::nat) \<and>
   blobToReadable [1, 2, 3, 4, 5] (Some 2) = Some (map Data [[1, 2], [3, 4], [5]] @ [End]) \<and>
   nat \<lceil>real (length [1, 2, 3, 4, 5::byte]) / real (2::nat)\<rceil> = 3 \<and>
   blobToReadable [1, 2, 3, 4, 5] None = blobToReadable [1, 2, 3, 4, 5] (Some (64 * 1024))"
proof -
  have "nat \<lceil>real (length [1, 2, 3, 4, 5::byte]) / real (2::nat)\<rceil> = 3"
    by (simp add: ceil_div_real)
  then show ?thesis
    using blobToReadable_chunks [of 2 "[1, 2, 3, 4, 5]"]
    by (simp add: blobToReadable_def pull.simps read_def slice_def)
qed

text \<open>
  The chunk size has to be positive. With the chunk size 0 and bytes left in the blob, the
  callback pushes an empty chunk and leaves the offset where it was, so the end of the
  stream is never pushed.
\<close>

lemma pull_ends_progress:
  "pull blob C off = Some evs \<Longrightarrow> C = 0 \<longrightarrow> length blob \<le> off"
proof (rule pull.raw_induct [where P = "\<lambda>blob C off evs. C = 0 \<longrightarrow> length blob \<le> off"])
  show "pull blob C off = Some evs \<Longrightarrow> pull blob C off = Some evs" .
next
  fix f :: "byte list \<Rightarrow> nat \<Rightarrow> nat \<Rightarrow> readable option" and blob C off evs
  assume ih: "\<And>blob C off evs. f blob C off = Some evs \<Longrightarrow> C = 0 \<longrightarrow> length blob \<le> off"
    and step: "(case read blob C off of
        (None, _) \<Rightarrow> Some [End]
      | (Some chunk, offset') \<Rightarrow>
          Option.bind (f blob C offset') (\<lambda>evs. Some (Data chunk # evs))) = Some evs"
  show "C = 0 \<longrightarrow> length blob \<le> off"
  proof
    assume z: "C = 0"
    show "length blob \<le> off"
    proof (rule ccontr)
      assume n: "\<not> length blob \<le> off"
      with z step obtain evs' where "f blob C off = Some evs'"
        by (auto simp: read_def Let_def split: bind_splits)
      with ih z n show False by blast
    qed
  qed
qed

lemma pull_zero_never_ends:
  "off < length blob \<Longrightarrow> pull blob 0 off = None"
  using pull_ends_progress [of blob 0 off] by (cases "pull blob 0 off") auto

subsection \<open>Reading text\<close>

lemma listen_until_end:
  "listen acc (map Data chunks @ End # rest) = Some (Inr (toString_utf8 (concat (acc @ chunks))))"
  by (induction chunks arbitrary: acc) simp_all

text \<open>
  C7. When the get request succeeds, \<^verbatim>\<open>getText\<close> resolves with the empty string if the
  response has no body. If it has one, every chunk the stream emits before its end is
  collected, and the result is the UTF-8 decoding of the chunks put together, whatever the
  chunking. A body whose bytes are 0x68, 0x69 gives the string "hi".
\<close>

theorem getText_drains_and_decodes:
  assumes "client this (get_command (name this) key) s = (Inr r, s')"
  shows "(Body r = None \<longrightarrow> getText this key s = (Some (Inr []), s'))
       \<and> (\<forall>chunks rest. Body r = Some (map Data chunks @ End # rest) \<longrightarrow>
            getText this key s = (Some (Inr (toString_utf8 (concat chunks))), s'))
       \<and> (\<forall>chunks rest. Body r = Some (map Data chunks @ End # rest) \<longrightarrow>
            concat chunks = [0x68, 0x69] \<longrightarrow>
            getText this key s = (Some (Inr (map of_char ''hi'')), s'))"
proof -
  have raw: "getRaw this key Map.empty s = (Inr r, s')"
    using assms by (simp add: getRaw_def await_def resolve_def)
  have hi: "toString_utf8 [0x68, 0x69] = map of_char ''hi''"
    by (simp add: toString_utf8_def utf8_start_def)
  show ?thesis
    using raw hi listen_until_end [of "[]"]
    by (auto simp: getText_def streamToString_def)
qed

theorem getText_drains_and_decodes_witness:
  "client (s3_bucket ''bkt'') (get_command (name (s3_bucket ''bkt'')) ''a.txt'') (hi_service [])
     = (Inr \<lparr>Body = Some (map Data [[0x68, 0x69]] @ End # []), Metadata = Some (meta hi_object)\<rparr>,
        hi_service [])
   \<and> getText (s3_bucket ''bkt'') ''a.txt'' (hi_service [])
     = (Some (Inr (map of_char ''hi'')), hi_service [])
   \<and> map of_char ''hi'' = [0x68, 0x69 :: nat]
   \<and> toString_utf8 (concat [[0x68, 0x69]]) = map of_char ''hi''
   \<and> client ack_bucket (get_command (name ack_bucket) ''a.txt'') () = (Inr ack, ())
   \<and> Body ack = None
   \<and> getText ack_bucket ''a.txt'' () = (Some (Inr []), ())"
proof -
  have g: "client (s3_bucket ''bkt'') (get_command (name (s3_bucket ''bkt'')) ''a.txt'')
             (hi_service [])
     = (Inr \<lparr>Body = Some (map Data [[0x68, 0x69]] @ End # []), Metadata = Some (meta hi_object)\<rparr>,
        hi_service [])"
    by (simp add: s3_bucket_def s3_send_def text_field_def hi_service_def hi_object_def)
  from getText_drains_and_decodes [OF g, THEN conjunct2, THEN conjunct2, rule_format,
      of "[[0x68, 0x69]]" "[]"]
  have 1: "getText (s3_bucket ''bkt'') ''a.txt'' (hi_service [])
     = (Some (Inr (map of_char ''hi'')), hi_service [])"
    by simp
  from getText_drains_and_decodes [OF g, THEN conjunct2, THEN conjunct1, rule_format,
      of "[[0x68, 0x69]]" "[]"] 1
  have 2: "toString_utf8 (concat [[0x68, 0x69]]) = map of_char ''hi''"
    by simp
  have k: "client ack_bucket (get_command (name ack_bucket) ''a.txt'') () = (Inr ack, ())"
    by (simp add: ack_bucket_def)
  have n: "Body ack = None"
    by (simp add: ack_def)
  from getText_drains_and_decodes [OF k, THEN conjunct1] n
  have 3: "getText ack_bucket ''a.txt'' () = (Some (Inr []), ())"
    by simp
  from g 1 2 k n 3 show ?thesis by simp
qed

subsection \<open>The default merge and the merge function\<close>

lemma putHead_requests:
  assumes "client this (head_command (name this) key) s = (Inr r, s1)"
    and "A = (case Metadata r of Some m \<Rightarrow> m | None \<Rightarrow> Map.empty)"
    and "R = (case mergeMetadata this of Some merge \<Rightarrow> merge A B | None \<Rightarrow> A ++ B)"
    and "client this (replace_command (name this) key R) s1 = (c, s2)"
  shows "putHead (traced this) key B (sent, s) =
           (map_sum id (\<lambda>_. ()) c,
            (sent @ [head_command (name this) key, replace_command (name this) key R], s2))"
  using assms
  by (cases c)
     (auto simp: putHead_def getHead_def getHeadRaw_def copyRaw_def await_def resolve_def
        traced_def logged_apply)

text \<open>
  C1, as the code has it. Without a merge function, and once the metadata read has
  succeeded with the map \<open>A\<close>, \<^verbatim>\<open>putHead(key, B)\<close> issues the head request and then one
  self-copy with the replace directive whose metadata \<open>R\<close> is the spread of \<open>B\<close> over
  \<open>A\<close>: \<open>R[k] = B[k]\<close> for every key present in \<open>B\<close>, also when the value there is
  \<^verbatim>\<open>undefined\<close>, and \<open>R[k] = A[k]\<close> for every key that is not present in \<open>B\<close>.
\<close>

theorem putHead_default_overlay:
  assumes "mergeMetadata this = None"
    and "client this (head_command (name this) key) s = (Inr r, s1)"
    and "A = (case Metadata r of Some m \<Rightarrow> m | None \<Rightarrow> Map.empty)"
  shows "\<exists>R. fst (snd (putHead (traced this) key B (sent, s))) =
               sent @ [head_command (name this) key, replace_command (name this) key R]
           \<and> (\<forall>k v. B k = Some v \<longrightarrow> R k = Some v)
           \<and> (\<forall>k. B k = None \<longrightarrow> R k = A k)"
proof -
  obtain c s2 where c: "client this (replace_command (name this) key (A ++ B)) s1 = (c, s2)"
    by (cases "client this (replace_command (name this) key (A ++ B)) s1")
  have "putHead (traced this) key B (sent, s) =
           (map_sum id (\<lambda>_. ()) c,
            (sent @ [head_command (name this) key, replace_command (name this) key (A ++ B)], s2))"
    by (rule putHead_requests [OF assms(2) assms(3) _ c]) (simp add: assms(1))
  moreover have "\<forall>k v. B k = Some v \<longrightarrow> (A ++ B) k = Some v"
    by (simp add: map_add_def)
  moreover have "\<forall>k. B k = None \<longrightarrow> (A ++ B) k = A k"
    by (simp add: map_add_def)
  ultimately show ?thesis
    by (intro exI [of _ "A ++ B"]) simp
qed

theorem putHead_default_overlay_witness:
  "mergeMetadata (s3_bucket ''bkt'') = None
   \<and> client (s3_bucket ''bkt'') (head_command (name (s3_bucket ''bkt'')) ''a.txt'') (hi_service [])
       = (Inr \<lparr>Body = None, Metadata = Some (meta hi_object)\<rparr>, hi_service [])
   \<and> (\<exists>R. fst (snd (putHead (traced (s3_bucket ''bkt'')) ''a.txt''
                       [''team'' \<mapsto> Str ''ops''] ([], hi_service []))) =
             [head_command ''bkt'' ''a.txt'', replace_command ''bkt'' ''a.txt'' R]
          \<and> R ''team'' = Some (Str ''ops'') \<and> R ''owner'' = Some (Str ''bob''))"
proof -
  have m: "mergeMetadata (s3_bucket ''bkt'') = None"
    by (simp add: s3_bucket_def)
  have h: "client (s3_bucket ''bkt'') (head_command (name (s3_bucket ''bkt'')) ''a.txt'')
             (hi_service [])
           = (Inr \<lparr>Body = None, Metadata = Some (meta hi_object)\<rparr>, hi_service [])"
    by (simp add: s3_bucket_def s3_send_def text_field_def hi_service_def)
  from putHead_default_overlay [OF m h, of "meta hi_object" "[''team'' \<mapsto> Str ''ops'']" "[]"]
  obtain R where
    R: "fst (snd (putHead (traced (s3_bucket ''bkt'')) ''a.txt''
                       [''team'' \<mapsto> Str ''ops''] ([], hi_service []))) =
          [] @ [head_command (name (s3_bucket ''bkt'')) ''a.txt'',
                replace_command (name (s3_bucket ''bkt'')) ''a.txt'' R]"
       "\<forall>k v. [''team'' \<mapsto> Str ''ops''] k = Some v \<longrightarrow> R k = Some v"
       "\<forall>k. [''team'' \<mapsto> Str ''ops''] k = None \<longrightarrow> R k = meta hi_object k"
    by auto
  from R(2) have "R ''team'' = Some (Str ''ops'')" by simp
  moreover from R(3) have "R ''owner'' = Some (Str ''bob'')" by (simp add: hi_object_def)
  ultimately show ?thesis using m h R(1) by (auto simp: s3_bucket_def)
qed

text \<open>
  The claim C1 says that a key whose value in \<open>B\<close> is \<^verbatim>\<open>undefined\<close> is dropped and leaves
  \<open>A[k]\<close> as it is. On an object whose metadata has \<^verbatim>\<open>owner\<close> = "bob", the update
  \<^verbatim>\<open>{ owner: undefined }\<close> makes the copy request carry \<^verbatim>\<open>owner\<close> = \<^verbatim>\<open>undefined\<close>.
\<close>

theorem putHead_default_overlay_counterexample:
  "meta hi_object ''owner'' = Some (Str ''bob'')
   \<and> written (fst (snd (putHead (traced (s3_bucket ''bkt'')) ''a.txt''
                          [''owner'' \<mapsto> Undefined] ([], hi_service [])))) ''owner''
       = Some Undefined
   \<and> written (fst (snd (putHead (traced (s3_bucket ''bkt'')) ''a.txt''
                          [''owner'' \<mapsto> Undefined] ([], hi_service [])))) ''owner''
       \<noteq> meta hi_object ''owner''"
  by (simp add: putHead_def getHead_def getHeadRaw_def copyRaw_def await_def resolve_def
        traced_def logged_apply s3_bucket_def s3_send_def text_field_def hi_service_def
        hi_object_def written_def written_metadata_def)

text \<open>
  C2, as the code has it. With a merge function configured, and once the metadata read has
  succeeded with the map \<open>A\<close>, \<^verbatim>\<open>putHead(key, B)\<close> issues the head request and then
  exactly one copy request whose source and destination are the given key, with the replace
  directive and, as its metadata, the result of the merge function applied to \<open>A\<close> and to
  \<open>B\<close> as it was given; the outcome of the copy is the outcome of \<^verbatim>\<open>putHead\<close>. The map
  \<open>B\<close> is not serialised first, which makes a difference only when \<open>B\<close> has an entry
  whose value is \<^verbatim>\<open>undefined\<close>.
\<close>

theorem putHead_merge_function:
  assumes "mergeMetadata this = Some merge"
    and "client this (head_command (name this) key) s = (Inr r, s1)"
    and "A = (case Metadata r of Some m \<Rightarrow> m | None \<Rightarrow> Map.empty)"
    and "client this (replace_command (name this) key (merge A B)) s1 = (c, s2)"
  shows "putHead (traced this) key B (sent, s) =
           (map_sum id (\<lambda>_. ()) c,
            (sent @ [head_command (name this) key,
                    replace_command (name this) key (merge A B)], s2))
       \<and> ((\<forall>k. B k \<noteq> Some Undefined) \<longrightarrow> xserializeMetadata B = B)"
proof
  show "putHead (traced this) key B (sent, s) =
           (map_sum id (\<lambda>_. ()) c,
            (sent @ [head_command (name this) key,
                    replace_command (name this) key (merge A B)], s2))"
    by (rule putHead_requests [OF assms(2) assms(3) _ assms(4)]) (simp add: assms(1))
next
  show "(\<forall>k. B k \<noteq> Some Undefined) \<longrightarrow> xserializeMetadata B = B"
  proof
    assume d: "\<forall>k. B k \<noteq> Some Undefined"
    show "xserializeMetadata B = B"
    proof
      fix k
      from d have "B k \<noteq> Some Undefined" ..
      then show "xserializeMetadata B k = B k"
        by (simp add: xserializeMetadata_def split: option.split jsval.split)
    qed
  qed
qed

theorem putHead_merge_function_witness:
  "mergeMetadata union_bucket = Some (\<lambda>metadata1 metadata2. metadata1 ++ metadata2)
   \<and> fst (putHead (traced union_bucket) ''a.txt'' [''team'' \<mapsto> Str ''ops''] ([], hi_service []))
       = Inr ()
   \<and> fst (snd (putHead (traced union_bucket) ''a.txt'' [''team'' \<mapsto> Str ''ops'']
                  ([], hi_service [])))
       = [head_command ''bkt'' ''a.txt'',
          replace_command ''bkt'' ''a.txt'' (meta hi_object ++ [''team'' \<mapsto> Str ''ops''])]
   \<and> xserializeMetadata [''team'' \<mapsto> Str ''ops''] = [''team'' \<mapsto> Str ''ops'']"
proof -
  let ?B = "[''team'' \<mapsto> Str ''ops'']"
  have m: "mergeMetadata union_bucket = Some (\<lambda>metadata1 metadata2. metadata1 ++ metadata2)"
    by (simp add: union_bucket_def)
  have h: "client union_bucket (head_command (name union_bucket) ''a.txt'') (hi_service [])
           = (Inr \<lparr>Body = None, Metadata = Some (meta hi_object)\<rparr>, hi_service [])"
    by (simp add: union_bucket_def s3_send_def text_field_def hi_service_def)
  have a: "meta hi_object =
             (case Metadata \<lparr>Body = None, Metadata = Some (meta hi_object)\<rparr> of
                Some m \<Rightarrow> m | None \<Rightarrow> Map.empty)"
    by simp
  obtain s2 where
    c: "client union_bucket
          (replace_command (name union_bucket) ''a.txt'' (meta hi_object ++ ?B)) (hi_service [])
        = (Inr ack, s2)"
    by (simp add: union_bucket_def s3_send_def text_field_def hi_service_def)
  have d: "\<forall>k. ?B k \<noteq> Some Undefined" by simp
  from putHead_merge_function [OF m h a c, of "[]"] d
  have "putHead (traced union_bucket) ''a.txt'' ?B ([], hi_service []) =
          (map_sum id (\<lambda>_. ()) (Inr ack),
           ([] @ [head_command (name union_bucket) ''a.txt'',
                  replace_command (name union_bucket) ''a.txt'' (meta hi_object ++ ?B)], s2))"
    and "xserializeMetadata ?B = ?B"
    by blast+
  then show ?thesis using m by (simp add: union_bucket_def)
qed

text \<open>
  The claim C2 has the merge function called with the partial metadata serialised to
  strings, which drops an entry whose value is \<^verbatim>\<open>undefined\<close>. With the union of the two
  maps as merge function, an object whose metadata has \<^verbatim>\<open>owner\<close> = "bob" and the update
  \<^verbatim>\<open>{ owner: undefined }\<close>, the merge of the serialised update keeps "bob", while the copy
  request that \<^verbatim>\<open>putHead\<close> issues carries \<^verbatim>\<open>owner\<close> = \<^verbatim>\<open>undefined\<close>.
\<close>

theorem putHead_merge_function_counterexample:
  "(case mergeMetadata union_bucket of
      Some merge \<Rightarrow> merge (meta hi_object) (xserializeMetadata [''owner'' \<mapsto> Undefined]) ''owner''
    | None \<Rightarrow> None) = Some (Str ''bob'')
   \<and> written (fst (snd (putHead (traced union_bucket) ''a.txt''
                          [''owner'' \<mapsto> Undefined] ([], hi_service [])))) ''owner''
       = Some Undefined"
  by (simp add: putHead_def getHead_def getHeadRaw_def copyRaw_def await_def resolve_def
        traced_def logged_apply union_bucket_def s3_send_def text_field_def hi_service_def
        hi_object_def written_def written_metadata_def xserializeMetadata_def map_add_def)

subsection \<open>Keys and batches are passed on as given\<close>

text \<open>
  C5, as the code has it. The facade checks neither the key nor the batch. With the empty
  key, \<^verbatim>\<open>getRaw\<close>, \<^verbatim>\<open>delete\<close> and \<^verbatim>\<open>getHead\<close> issue their one request with that key, and
  \<^verbatim>\<open>deleteMany\<close> with an empty list issues its one bulk-delete request with no object
  identifier; each settles as the client settles that request, so an error on such input
  is the client's and never one made by the facade.
\<close>

theorem empty_key_and_batch_passed_on:
  "getRaw (traced this) [] Map.empty (sent, s) =
     (fst (client this (get_command (name this) []) s),
      (sent @ [get_command (name this) []], snd (client this (get_command (name this) []) s)))
   \<and> delete (traced this) [] (sent, s) =
     (fst (client this (delete_command (name this) []) s),
      (sent @ [delete_command (name this) []],
       snd (client this (delete_command (name this) []) s)))
   \<and> getHeadRaw (traced this) [] Map.empty (sent, s) =
     (fst (client this (head_command (name this) []) s),
      (sent @ [head_command (name this) []], snd (client this (head_command (name this) []) s)))
   \<and> deleteMany (traced this) [] (sent, s) =
     (fst (client this (bulk_delete_command (name this) []) s),
      (sent @ [bulk_delete_command (name this) []],
       snd (client this (bulk_delete_command (name this) []) s)))"
  by (simp add: getRaw_def delete_def deleteRaw_def getHeadRaw_def deleteMany_def
        deleteManyRaw_def await_def resolve_def traced_def logged_apply
      split: sum.split)

text \<open>
  The claim C5 has every such call fail with a validation error. On the in-memory service
  the get of the empty key fails with \<open>NotFound\<close>, and the delete of the empty key and the
  bulk delete of no key succeed.
\<close>

theorem empty_key_and_batch_counterexample:
  "fst (getRaw (s3_bucket ''bkt'') [] Map.empty empty_service) = Inl NotFound
   \<and> fst (delete (s3_bucket ''bkt'') [] empty_service) = Inr ack
   \<and> fst (deleteMany (s3_bucket ''bkt'') [] empty_service) = Inr ack
   \<and> fst (getRaw (s3_bucket ''bkt'') [] Map.empty empty_service) \<noteq> Inl ValidationError
   \<and> fst (delete (s3_bucket ''bkt'') [] empty_service) \<noteq> Inl ValidationError
   \<and> fst (deleteMany (s3_bucket ''bkt'') [] empty_service) \<noteq> Inl ValidationError"
  by (simp add: getRaw_def delete_def deleteRaw_def deleteMany_def deleteManyRaw_def
        await_def resolve_def s3_bucket_def s3_send_def text_field_def empty_service_def)

end
